theory Spec2Isabelle
  imports Main "HOL-Library.Sublist"
begin

section \<open>The build script patcher \<^verbatim>\<open>build_assimp.py\<close>\<close>

text \<open>
  The program is one Python module that runs top to bottom: it opens the build script
  \<^verbatim>\<open>build.sh\<close> of the library, rewrites the lines that set the two architecture
  variables, writes the result to the sibling file \<^verbatim>\<open>build_current.sh\<close>, changes
  into that directory, runs the written file with \<^verbatim>\<open>sh\<close> and removes it.

  Text is modelled as \<open>string\<close> (a list of characters). The two characters the program
  writes as escapes are named here.
\<close>

subsection \<open>Characters and the string operations of Python that the module calls\<close>

definition dquote :: char where
  "dquote = CHR 0x22"

definition newline :: char where
  "newline = CHR 0x0A"

definition sep :: char where
  "sep = CHR ''/''"

text \<open>
  \<^verbatim>\<open>s.startswith(p)\<close> compares the slice \<^verbatim>\<open>s[0:len(p)]\<close> with \<^verbatim>\<open>p\<close>.
\<close>

definition startswith :: "string \<Rightarrow> string \<Rightarrow> bool" where
  "startswith s p = (take (length p) s = p)"

definition endswith :: "string \<Rightarrow> string \<Rightarrow> bool" where
  "endswith s p = (drop (length s - length p) s = p \<and> length p \<le> length s)"

subsection \<open>The module constants (lines 4 to 13)\<close>

text \<open>
  \<^verbatim>\<open>posixpath.join(a, b)\<close>: an absolute \<^verbatim>\<open>b\<close> replaces \<^verbatim>\<open>a\<close>; otherwise \<^verbatim>\<open>b\<close> is
  appended, after a separator unless \<^verbatim>\<open>a\<close> is empty or ends with one.
\<close>

definition os_path_join :: "string \<Rightarrow> string \<Rightarrow> string" where
  "os_path_join a b =
     (if startswith b [sep] then b
      else if a = [] \<or> endswith a [sep] then a @ b
      else a @ [sep] @ b)"

definition assimp_dir :: string where
  "assimp_dir = ''./assimpLib/''"

definition build_file :: string where
  "build_file = os_path_join assimp_dir ''port/iOS/build.sh''"

definition build_temp_file :: string where
  "build_temp_file = os_path_join assimp_dir ''port/iOS/build_current.sh''"

definition build_folder :: string where
  "build_folder = os_path_join assimp_dir ''lib/iOS/''"

definition arch_flag_name_device :: string where
  "arch_flag_name_device = ''BUILD_ARCHS_DEVICE''"

definition arch_flag_name_simulator :: string where
  "arch_flag_name_simulator = ''BUILD_ARCHS_SIMULATOR''"

definition valid_archs_device :: string where
  "valid_archs_device = ''arm64e arm64''"

definition valid_archs_simulator :: string where
  "valid_archs_simulator = ''x86_64''"

subsection \<open>Rewriting one line (lines 21 to 24)\<close>

text \<open>
  \<^verbatim>\<open>check_line_from_parts(left, right)\<close> reads the module variable \<^verbatim>\<open>line\<close>, which
  the loop sets; here it is the first argument.
\<close>

definition check_line_from_parts :: "string \<Rightarrow> string \<Rightarrow> string \<Rightarrow> string" where
  "check_line_from_parts line left right =
     (if startswith line left
      then left @ [CHR ''='', dquote] @ right @ [dquote, newline]
      else line)"

subsection \<open>The loop over the lines (lines 27 to 30)\<close>

text \<open>
  The body of the loop: the device check, then the simulator check on its result.
\<close>

definition loop_body :: "string \<Rightarrow> string" where
  "loop_body line =
     (let line1 = check_line_from_parts line arch_flag_name_device valid_archs_device;
          line2 = check_line_from_parts line1 arch_flag_name_simulator valid_archs_simulator
      in line2)"

text \<open>
  The loop appends the rewritten line to \<^verbatim>\<open>new_lines\<close>, which starts empty.
\<close>

fun loop :: "string list \<Rightarrow> string list \<Rightarrow> string list" where
  "loop [] new_lines = new_lines"
| "loop (line # lines) new_lines = loop lines (new_lines @ [loop_body line])"

definition new_lines_of :: "string list \<Rightarrow> string list" where
  "new_lines_of lines = loop lines []"

text \<open>
  The per-line rewrite as two checks on the original line, none applied to the result of
  the other. This definition follows the description of the design, not the code; it is
  compared with \<open>loop_body\<close> below.
\<close>

definition independent_checks :: "string \<Rightarrow> string" where
  "independent_checks line =
     (if startswith line arch_flag_name_device
      then arch_flag_name_device @ [CHR ''='', dquote] @ valid_archs_device @ [dquote, newline]
      else if startswith line arch_flag_name_simulator
      then arch_flag_name_simulator @ [CHR ''='', dquote] @ valid_archs_simulator
             @ [dquote, newline]
      else line)"

subsection \<open>Files, paths and the child process\<close>

text \<open>
  The world the module acts on: the text of each file, keyed by its path, the working
  directory of the process, and the paths that cannot be opened for writing. A relative
  path is resolved against the working directory by joining the two; directories are
  not stored. The text of a file is what a read in text mode delivers and what a write
  in text mode was given, with the line feed as the only line end.
\<close>

record world =
  files :: "string \<rightharpoonup> string"
  cwd :: string
  unwritable :: "string set"

text \<open>
  Every failing call of the standard library raises \<^verbatim>\<open>OSError\<close>, which the module
  does not catch, so the run stops there. The error value records the site:
  \<open>FileAccessError p\<close> for \<^verbatim>\<open>open\<close> and \<^verbatim>\<open>os.remove\<close> on the path \<^verbatim>\<open>p\<close>,
  \<open>SubprocessError\<close> for \<^verbatim>\<open>call\<close> when the child cannot be started.
\<close>

datatype error = FileAccessError string | SubprocessError

datatype outcome = Finished | Raised error

text \<open>
  The child process is outside the program. It either cannot be started, or it exits
  with a status and leaves the files in some state; it cannot change the working
  directory of its parent.
\<close>

datatype proc_result = SpawnFailed | Exited int "string \<rightharpoonup> string"

type_synonym shell = "string list \<Rightarrow> world \<Rightarrow> proc_result"

definition abspath :: "world \<Rightarrow> string \<Rightarrow> string" where
  "abspath w p = os_path_join (cwd w) p"

text \<open>
  \<^verbatim>\<open>posixpath.dirname\<close> and \<^verbatim>\<open>posixpath.basename\<close> cut the path after its last
  separator (\<^verbatim>\<open>i = p.rfind('/') + 1\<close>); \<^verbatim>\<open>dirname\<close> strips the trailing separators
  of the head unless the head consists of separators only.
\<close>

definition rfind_sep_plus1 :: "string \<Rightarrow> nat" where
  "rfind_sep_plus1 p = length p - length (takeWhile (\<lambda>c. c \<noteq> sep) (rev p))"

definition rstrip_sep :: "string \<Rightarrow> string" where
  "rstrip_sep s = rev (dropWhile (\<lambda>c. c = sep) (rev s))"

definition os_path_dirname :: "string \<Rightarrow> string" where
  "os_path_dirname p =
     (let i = rfind_sep_plus1 p; head = take i p
      in if head \<noteq> [] \<and> head \<noteq> replicate (length head) sep then rstrip_sep head else head)"

definition os_path_basename :: "string \<Rightarrow> string" where
  "os_path_basename p = (let i = rfind_sep_plus1 p in drop i p)"

text \<open>
  Iterating over a text file yields its lines, each with its newline; the last line
  has none when the text does not end with one.
\<close>

fun split_lines :: "string \<Rightarrow> string \<Rightarrow> string list" where
  "split_lines cur [] = (if cur = [] then [] else [cur])"
| "split_lines cur (c # cs) =
     (if c = newline then (cur @ [c]) # split_lines [] cs else split_lines (cur @ [c]) cs)"

definition file_lines :: "string \<Rightarrow> string list" where
  "file_lines text = split_lines [] text"

text \<open>
  \<^verbatim>\<open>open(p)\<close> fails when there is no file at \<^verbatim>\<open>p\<close>; the handle is the resolved path.
  \<^verbatim>\<open>open(p, 'w')\<close> fails when the path cannot be written, and otherwise creates the
  file or empties it.
\<close>

definition open_read :: "world \<Rightarrow> string \<Rightarrow> error + string" where
  "open_read w p =
     (case files w (abspath w p) of
        None \<Rightarrow> Inl (FileAccessError p)
      | Some _ \<Rightarrow> Inr (abspath w p))"

definition open_write :: "world \<Rightarrow> string \<Rightarrow> error + (string \<times> world)" where
  "open_write w p =
     (if abspath w p \<in> unwritable w then Inl (FileAccessError p)
      else Inr (abspath w p, w\<lparr>files := (files w)(abspath w p \<mapsto> [])\<rparr>))"

definition read_lines :: "world \<Rightarrow> string \<Rightarrow> string list" where
  "read_lines w h = (case files w h of None \<Rightarrow> [] | Some text \<Rightarrow> file_lines text)"

definition writelines :: "world \<Rightarrow> string \<Rightarrow> string list \<Rightarrow> world" where
  "writelines w h ls =
     w\<lparr>files := (files w)(h \<mapsto> (case files w h of None \<Rightarrow> [] | Some old \<Rightarrow> old) @ concat ls)\<rparr>"

definition os_chdir :: "world \<Rightarrow> string \<Rightarrow> world" where
  "os_chdir w d = w\<lparr>cwd := abspath w d\<rparr>"

definition os_remove :: "world \<Rightarrow> string \<Rightarrow> error + world" where
  "os_remove w p =
     (case files w (abspath w p) of
        None \<Rightarrow> Inl (FileAccessError p)
      | Some _ \<Rightarrow> Inr (w\<lparr>files := (files w)(abspath w p := None)\<rparr>))"

subsection \<open>The run of the module\<close>

text \<open>
  Lines 15 to 34: open the source, open the temporary file, rewrite the lines, write
  them and close both files. The lines are read in the loop, after the temporary file
  has been opened.
\<close>

definition patch :: "world \<Rightarrow> error + world" where
  "patch w =
     (case open_read w build_file of
        Inl e \<Rightarrow> Inl e
      | Inr origin_build_file \<Rightarrow>
          (case open_write w build_temp_file of
             Inl e \<Rightarrow> Inl e
           | Inr (new_file, w1) \<Rightarrow>
               (let lines = read_lines w1 origin_build_file;
                    new_lines = new_lines_of lines
                in Inr (writelines w1 new_file new_lines))))"

text \<open>
  Lines 35 to 38: change into the directory of the temporary file, run it by its base
  name, drop the exit status that \<^verbatim>\<open>call\<close> returns, and remove the file.
\<close>

definition build :: "shell \<Rightarrow> world \<Rightarrow> outcome \<times> world" where
  "build sh w =
     (let w1 = os_chdir w (os_path_dirname build_temp_file);
          build_temp_file1 = os_path_basename build_temp_file
      in case sh [''sh'', build_temp_file1] w1 of
           SpawnFailed \<Rightarrow> (Raised SubprocessError, w1)
         | Exited status fs \<Rightarrow>
             (let w2 = w1\<lparr>files := fs\<rparr>
              in case os_remove w2 build_temp_file1 of
                   Inl e \<Rightarrow> (Raised e, w2)
                 | Inr w3 \<Rightarrow> (Finished, w3)))"

definition run :: "shell \<Rightarrow> world \<Rightarrow> outcome \<times> world" where
  "run sh w =
     (case patch w of
        Inl e \<Rightarrow> (Raised e, w)
      | Inr w1 \<Rightarrow> build sh w1)"

subsection \<open>Line sequences of a text\<close>

text \<open>
  A line is terminated when its only newline is its last character, and open when it
  is not empty and has no newline. In the lines of a text every line but the last is
  terminated, and the last is terminated or open.
\<close>

definition terminated :: "string \<Rightarrow> bool" where
  "terminated l = (l \<noteq> [] \<and> last l = newline \<and> newline \<notin> set (butlast l))"

definition open_line :: "string \<Rightarrow> bool" where
  "open_line l = (l \<noteq> [] \<and> newline \<notin> set l)"

fun text_lines :: "string list \<Rightarrow> bool" where
  "text_lines [] = True"
| "text_lines [l] = (terminated l \<or> open_line l)"
| "text_lines (l # ls) = (terminated l \<and> text_lines ls)"

subsection \<open>A concrete world\<close>

text \<open>
  A project directory that holds a four-line build script, the last line without a
  newline, and nothing else. The theorems below are evaluated on it.
\<close>

definition example_script :: string where
  "example_script =
     ''#!/bin/sh'' @ [newline] @ ''BUILD_ARCHS_DEVICE=arm64'' @ [newline]
       @ ''BUILD_ARCHS_SIMULATOR=i386'' @ [newline] @ ''make all''"

definition example_world :: world where
  "example_world =
     \<lparr>files = [''/proj/./assimpLib/port/iOS/build.sh'' \<mapsto> example_script],
      cwd = ''/proj'', unwritable = {}\<rparr>"

text \<open>
  The same world once the temporary file has been written.
\<close>

definition example_patched :: world where
  "example_patched =
     example_world\<lparr>files := (files example_world)
       (''/proj/./assimpLib/port/iOS/build_current.sh'' \<mapsto>
          ''#!/bin/sh'' @ [CHR 0x0A]
          @ ''BUILD_ARCHS_DEVICE='' @ [CHR 0x22] @ ''arm64e arm64'' @ [CHR 0x22, CHR 0x0A]
          @ ''BUILD_ARCHS_SIMULATOR='' @ [CHR 0x22] @ ''x86_64'' @ [CHR 0x22, CHR 0x0A]
          @ ''make all'')\<rparr>"

text \<open>
  A child process that touches no file and exits with the given status.
\<close>

definition exit_with :: "int \<Rightarrow> shell" where
  "exit_with st argv w = Exited st (files w)"

text \<open>
  A child process that removes the script it was given and exits with the given status.
\<close>

definition remove_script_and_exit :: "int \<Rightarrow> shell" where
  "remove_script_and_exit st argv w =
     (case argv of
        [interpreter, script] \<Rightarrow> Exited st ((files w)(abspath w script := None))
      | _ \<Rightarrow> SpawnFailed)"

section \<open>Properties of the line rewrite\<close>

lemma startswith_iff_prefix: "startswith s p \<longleftrightarrow> prefix p s"
  unfolding startswith_def
proof
  assume "take (length p) s = p"
  then have "s = p @ drop (length p) s"
    by (metis append_take_drop_id)
  then show "prefix p s"
    by (rule prefixI)
next
  assume "prefix p s"
  then obtain r where "s = p @ r"
    by (rule prefixE)
  then show "take (length p) s = p"
    by simp
qed

lemma loop_append: "loop lines acc = acc @ map loop_body lines"
  by (induction lines arbitrary: acc) simp_all

lemma new_lines_of_map: "new_lines_of lines = map loop_body lines"
  by (simp add: new_lines_of_def loop_append)

lemma check_line_prefix:
  "prefix left line \<Longrightarrow>
   check_line_from_parts line left right = left @ [CHR ''='', CHR 0x22] @ right @ [CHR 0x22, CHR 0x0A]"
  by (simp add: check_line_from_parts_def startswith_iff_prefix dquote_def newline_def)

lemma check_line_no_prefix:
  "\<not> prefix left line \<Longrightarrow> check_line_from_parts line left right = line"
  by (simp add: check_line_from_parts_def startswith_iff_prefix)

lemma flags_exclusive:
  "\<not> (prefix ''BUILD_ARCHS_DEVICE'' line \<and> prefix ''BUILD_ARCHS_SIMULATOR'' line)"
proof
  assume "prefix ''BUILD_ARCHS_DEVICE'' line \<and> prefix ''BUILD_ARCHS_SIMULATOR'' line"
  then have "prefix ''BUILD_ARCHS_DEVICE'' ''BUILD_ARCHS_SIMULATOR''
      \<or> prefix ''BUILD_ARCHS_SIMULATOR'' ''BUILD_ARCHS_DEVICE''"
    using prefix_same_cases by blast
  then show False
    by simp
qed

lemma device_line_not_simulator:
  "\<not> prefix ''BUILD_ARCHS_SIMULATOR'' (''BUILD_ARCHS_DEVICE'' @ rest)"
  by simp

lemma loop_body_cases:
  "loop_body line =
     (if prefix ''BUILD_ARCHS_DEVICE'' line
        then ''BUILD_ARCHS_DEVICE'' @ [CHR ''='', CHR 0x22] @ ''arm64e arm64'' @ [CHR 0x22, CHR 0x0A]
      else if prefix ''BUILD_ARCHS_SIMULATOR'' line
        then ''BUILD_ARCHS_SIMULATOR'' @ [CHR ''='', CHR 0x22] @ ''x86_64'' @ [CHR 0x22, CHR 0x0A]
      else line)"
proof (cases "prefix ''BUILD_ARCHS_DEVICE'' line")
  case True
  then have "check_line_from_parts line arch_flag_name_device valid_archs_device
      = ''BUILD_ARCHS_DEVICE'' @ [CHR ''='', CHR 0x22] @ ''arm64e arm64'' @ [CHR 0x22, CHR 0x0A]"
    by (simp add: check_line_prefix arch_flag_name_device_def valid_archs_device_def)
  moreover have "\<not> prefix arch_flag_name_simulator
      (''BUILD_ARCHS_DEVICE'' @ [CHR ''='', CHR 0x22] @ ''arm64e arm64'' @ [CHR 0x22, CHR 0x0A])"
    by (simp add: arch_flag_name_simulator_def)
  ultimately show ?thesis
    using True by (simp add: loop_body_def check_line_no_prefix)
next
  case False
  then have "check_line_from_parts line arch_flag_name_device valid_archs_device = line"
    by (simp add: check_line_no_prefix arch_flag_name_device_def)
  then show ?thesis
    using False
    by (cases "prefix ''BUILD_ARCHS_SIMULATOR'' line")
      (simp_all add: loop_body_def check_line_prefix check_line_no_prefix
        arch_flag_name_simulator_def valid_archs_simulator_def)
qed

lemma independent_checks_cases:
  "independent_checks line =
     (if prefix ''BUILD_ARCHS_DEVICE'' line
        then ''BUILD_ARCHS_DEVICE'' @ [CHR ''='', CHR 0x22] @ ''arm64e arm64'' @ [CHR 0x22, CHR 0x0A]
      else if prefix ''BUILD_ARCHS_SIMULATOR'' line
        then ''BUILD_ARCHS_SIMULATOR'' @ [CHR ''='', CHR 0x22] @ ''x86_64'' @ [CHR 0x22, CHR 0x0A]
      else line)"
  by (simp add: independent_checks_def startswith_iff_prefix arch_flag_name_device_def
      arch_flag_name_simulator_def valid_archs_device_def valid_archs_simulator_def
      dquote_def newline_def)

lemma loop_body_idem: "loop_body (loop_body line) = loop_body line"
  by (simp add: loop_body_cases)

section \<open>Paths and the phases of the run\<close>

lemma build_file_eval: "build_file = ''./assimpLib/port/iOS/build.sh''"
  by (simp add: build_file_def assimp_dir_def os_path_join_def startswith_def endswith_def sep_def)

lemma build_temp_file_eval: "build_temp_file = ''./assimpLib/port/iOS/build_current.sh''"
  by (simp add: build_temp_file_def assimp_dir_def os_path_join_def startswith_def endswith_def sep_def)

lemma dirname_temp: "os_path_dirname build_temp_file = ''./assimpLib/port/iOS''"
  by (simp add: build_temp_file_eval os_path_dirname_def rfind_sep_plus1_def rstrip_sep_def sep_def Let_def)

lemma basename_temp: "os_path_basename build_temp_file = ''build_current.sh''"
  by (simp add: build_temp_file_eval os_path_basename_def rfind_sep_plus1_def sep_def Let_def)

lemma endswith_single: "endswith s [c] \<longleftrightarrow> s \<noteq> [] \<and> last s = c"
proof (cases s rule: rev_cases)
  case Nil
  then show ?thesis by (simp add: endswith_def)
next
  case (snoc ys y)
  then show ?thesis by (auto simp add: endswith_def)
qed

lemma join_relative:
  "b \<noteq> [] \<Longrightarrow> hd b \<noteq> sep \<Longrightarrow>
   os_path_join a b = (if a = [] \<or> last a = sep then a @ b else a @ sep # b)"
  by (cases b) (auto simp add: os_path_join_def startswith_def endswith_single)

lemma abspath_temp_chdir:
  "abspath (os_chdir w (os_path_dirname build_temp_file)) (os_path_basename build_temp_file)
     = abspath w build_temp_file"
  unfolding dirname_temp basename_temp
  by (simp add: abspath_def os_chdir_def build_temp_file_eval join_relative sep_def)

lemma abspath_source_temp_distinct: "abspath w build_file \<noteq> abspath w build_temp_file"
  by (simp add: abspath_def build_file_eval build_temp_file_eval join_relative sep_def)

lemma patch_success:
  assumes "files w (abspath w build_file) = Some src"
    and "abspath w build_temp_file \<notin> unwritable w"
  shows "patch w = Inr (w\<lparr>files := (files w)(abspath w build_temp_file \<mapsto>
            concat (new_lines_of (file_lines src)))\<rparr>)"
  using assms abspath_source_temp_distinct [of w]
  by (simp add: patch_def open_read_def open_write_def read_lines_def writelines_def Let_def)

lemma patch_no_source:
  "files w (abspath w build_file) = None \<Longrightarrow> patch w = Inl (FileAccessError build_file)"
  by (simp add: patch_def open_read_def)

lemma patch_unwritable:
  "files w (abspath w build_file) = Some src \<Longrightarrow> abspath w build_temp_file \<in> unwritable w \<Longrightarrow>
   patch w = Inl (FileAccessError build_temp_file)"
  by (simp add: patch_def open_read_def open_write_def)

lemma patch_InrD:
  assumes "patch w = Inr w1"
  shows "\<exists>src. files w (abspath w build_file) = Some src
           \<and> abspath w build_temp_file \<notin> unwritable w
           \<and> w1 = w\<lparr>files := (files w)(abspath w build_temp_file \<mapsto>
                  concat (new_lines_of (file_lines src)))\<rparr>"
proof (cases "files w (abspath w build_file)")
  case None
  then show ?thesis using assms by (simp add: patch_no_source)
next
  case (Some src)
  show ?thesis
  proof (cases "abspath w build_temp_file \<in> unwritable w")
    case True
    then show ?thesis using assms Some by (simp add: patch_unwritable)
  next
    case False
    then show ?thesis using assms Some by (simp add: patch_success)
  qed
qed

lemma build_spawn_failed:
  "sh [''sh'', ''build_current.sh''] (os_chdir w ''./assimpLib/port/iOS'') = SpawnFailed \<Longrightarrow>
   build sh w = (Raised SubprocessError, os_chdir w ''./assimpLib/port/iOS'')"
  by (simp add: build_def dirname_temp basename_temp Let_def)

lemma build_exited:
  assumes "sh [''sh'', ''build_current.sh''] (os_chdir w ''./assimpLib/port/iOS'') = Exited st fs"
  shows "build sh w =
     (case fs (abspath w build_temp_file) of
        None \<Rightarrow> (Raised (FileAccessError ''build_current.sh''),
                  (os_chdir w ''./assimpLib/port/iOS'')\<lparr>files := fs\<rparr>)
      | Some _ \<Rightarrow> (Finished,
                  (os_chdir w ''./assimpLib/port/iOS'')\<lparr>files := fs(abspath w build_temp_file := None)\<rparr>))"
proof -
  have k: "abspath ((os_chdir w ''./assimpLib/port/iOS'')\<lparr>files := fs\<rparr>) ''build_current.sh''
      = abspath w build_temp_file"
    using abspath_temp_chdir [of w]
    by (simp add: abspath_def os_chdir_def dirname_temp basename_temp)
  show ?thesis
    using assms k
    by (simp add: build_def dirname_temp basename_temp Let_def os_remove_def split: option.splits)
qed

lemma run_patched: "patch w = Inr w1 \<Longrightarrow> run sh w = build sh w1"
  by (simp add: run_def)

lemma run_not_patched: "patch w = Inl e \<Longrightarrow> run sh w = (Raised e, w)"
  by (simp add: run_def)

lemma patch_abspath: "patch w = Inr w1 \<Longrightarrow> abspath w1 p = abspath w p"
  using patch_InrD [of w w1] by (auto simp add: abspath_def)

lemma build_after_exit:
  assumes "sh [''sh'', ''build_current.sh''] (os_chdir w ''./assimpLib/port/iOS'') = Exited st fs"
  shows "files (snd (build sh w)) (abspath w build_temp_file) = None"
    and "fs (abspath w build_temp_file) \<noteq> None \<Longrightarrow> fst (build sh w) = Finished"
    and "fs (abspath w build_temp_file) = None \<Longrightarrow>
           fst (build sh w) = Raised (FileAccessError ''build_current.sh'')"
  using build_exited [of sh w st fs, OF assms]
  by (auto simp add: os_chdir_def split: option.splits)

lemma build_finished:
  assumes "build sh w = (Finished, w')"
  shows "files w' (abspath w build_temp_file) = None"
proof (cases "sh [''sh'', ''build_current.sh''] (os_chdir w ''./assimpLib/port/iOS'')")
  case SpawnFailed
  then show ?thesis
    using assms by (simp add: build_spawn_failed)
next
  case (Exited st fs)
  then show ?thesis
    using assms build_after_exit(1) [of sh w st fs, OF Exited] by simp
qed

section \<open>The lines of the written text\<close>

lemma split_lines_open:
  "newline \<notin> set b \<Longrightarrow> split_lines cur b = (if cur @ b = [] then [] else [cur @ b])"
  by (induction b arbitrary: cur) auto

lemma split_lines_terminated:
  "newline \<notin> set b \<Longrightarrow>
   split_lines cur (b @ newline # rest) = (cur @ b @ [newline]) # split_lines [] rest"
  by (induction b arbitrary: cur) auto

lemma terminated_iff: "terminated l \<longleftrightarrow> (\<exists>b. l = b @ [newline] \<and> newline \<notin> set b)"
proof
  assume "terminated l"
  then have "l = butlast l @ [newline] \<and> newline \<notin> set (butlast l)"
    unfolding terminated_def by (metis append_butlast_last_id)
  then show "\<exists>b. l = b @ [newline] \<and> newline \<notin> set b"
    by blast
next
  assume "\<exists>b. l = b @ [newline] \<and> newline \<notin> set b"
  then show "terminated l"
    by (auto simp add: terminated_def)
qed

lemma text_lines_Cons: "terminated l \<Longrightarrow> text_lines (l # ls) = text_lines ls"
  by (cases ls) simp_all

lemma text_lines_split: "newline \<notin> set cur \<Longrightarrow> text_lines (split_lines cur s)"
proof (induction s arbitrary: cur)
  case Nil
  then show ?case by (simp add: open_line_def)
next
  case (Cons c cs)
  show ?case
  proof (cases "c = newline")
    case True
    have "terminated (cur @ [newline])"
      using Cons.prems by (simp add: terminated_def)
    moreover have "text_lines (split_lines [] cs)"
      by (rule Cons.IH) simp
    ultimately show ?thesis
      using True by (simp add: text_lines_Cons)
  next
    case False
    then have "newline \<notin> set (cur @ [c])"
      using Cons.prems by auto
    then have "text_lines (split_lines (cur @ [c]) cs)"
      by (rule Cons.IH)
    then show ?thesis
      using False by simp
  qed
qed

lemma split_lines_concat: "text_lines ls \<Longrightarrow> split_lines [] (concat ls) = ls"
proof (induction ls rule: text_lines.induct)
  case 1
  then show ?case by simp
next
  case (2 l)
  then consider "terminated l" | "open_line l" by auto
  then show ?case
  proof cases
    case 1
    then obtain b where "l = b @ [newline]" "newline \<notin> set b"
      using terminated_iff by blast
    then show ?thesis
      using split_lines_terminated [of b "[]" "[]"] by simp
  next
    case 2
    then show ?thesis
      by (simp add: open_line_def split_lines_open)
  qed
next
  case (3 l l' ls)
  then have "terminated l" and rest: "split_lines [] (concat (l' # ls)) = l' # ls"
    by simp_all
  then obtain b where "l = b @ [newline]" "newline \<notin> set b"
    using terminated_iff by blast
  then show ?case
    using split_lines_terminated [of b "[]" "concat (l' # ls)"] rest by simp
qed

lemma loop_body_terminated: "terminated l \<Longrightarrow> terminated (loop_body l)"
  by (simp add: loop_body_cases terminated_def newline_def)

lemma loop_body_open: "open_line l \<Longrightarrow> terminated (loop_body l) \<or> open_line (loop_body l)"
  by (simp add: loop_body_cases terminated_def open_line_def newline_def)

lemma text_lines_map: "text_lines ls \<Longrightarrow> text_lines (map loop_body ls)"
proof (induction ls rule: text_lines.induct)
  case 1
  then show ?case by simp
next
  case (2 l)
  then show ?case
    using loop_body_terminated [of l] loop_body_open [of l] by auto
next
  case (3 l l' ls)
  then show ?case
    using loop_body_terminated [of l] by simp
qed

lemma file_lines_rewritten:
  "file_lines (concat (new_lines_of (file_lines text))) = new_lines_of (file_lines text)"
proof -
  have "text_lines (file_lines text)"
    unfolding file_lines_def by (rule text_lines_split) simp
  then have "text_lines (new_lines_of (file_lines text))"
    by (simp add: new_lines_of_map text_lines_map)
  then show ?thesis
    unfolding file_lines_def [of "concat _"] by (rule split_lines_concat)
qed

section \<open>The concrete world, evaluated\<close>

lemma abspath_example_source:
  "abspath example_world build_file = ''/proj/./assimpLib/port/iOS/build.sh''"
  by (simp add: abspath_def example_world_def build_file_eval join_relative sep_def)

lemma abspath_example_temp:
  "abspath example_world build_temp_file = ''/proj/./assimpLib/port/iOS/build_current.sh''"
  by (simp add: abspath_def example_world_def build_temp_file_eval join_relative sep_def)

lemma example_source: "files example_world (abspath example_world build_file) = Some example_script"
  by (simp add: abspath_example_source) (simp add: example_world_def)

lemma example_writable: "abspath example_world build_temp_file \<notin> unwritable example_world"
  by (simp add: example_world_def)

lemma example_lines:
  "file_lines example_script =
     [''#!/bin/sh'' @ [CHR 0x0A], ''BUILD_ARCHS_DEVICE=arm64'' @ [CHR 0x0A],
      ''BUILD_ARCHS_SIMULATOR=i386'' @ [CHR 0x0A], ''make all'']"
  by (simp add: file_lines_def example_script_def newline_def)

lemma example_new_lines:
  "new_lines_of (file_lines example_script) =
     [''#!/bin/sh'' @ [CHR 0x0A],
      ''BUILD_ARCHS_DEVICE='' @ [CHR 0x22] @ ''arm64e arm64'' @ [CHR 0x22, CHR 0x0A],
      ''BUILD_ARCHS_SIMULATOR='' @ [CHR 0x22] @ ''x86_64'' @ [CHR 0x22, CHR 0x0A], ''make all'']"
  by (simp add: example_lines new_lines_of_map loop_body_cases)

lemma example_patch: "patch example_world = Inr example_patched"
  using patch_success [OF example_source example_writable]
  by (simp add: example_new_lines abspath_example_temp example_patched_def)

lemma files_chdir: "files (os_chdir w d) = files w"
  by (simp add: os_chdir_def)

lemma example_chdir_temp:
  "abspath (os_chdir example_patched ''./assimpLib/port/iOS'') ''build_current.sh''
     = abspath example_world build_temp_file"
  using abspath_temp_chdir [of example_patched] patch_abspath [OF example_patch, of build_temp_file]
  by (simp only: dirname_temp basename_temp)

section \<open>The claims\<close>

text \<open>
  Claim C1. For every line, flag name and value, \<open>check_line_from_parts\<close> returns the
  flag name, an equals sign, the value between double quotes and a newline when the line
  starts with the flag name, and returns the line as it is otherwise.
\<close>

theorem check_line_from_parts_contract:
  "(prefix flagName line \<longrightarrow>
      check_line_from_parts line flagName val
        = flagName @ ''='' @ [CHR 0x22] @ val @ [CHR 0x22, CHR 0x0A])
   \<and> (\<not> prefix flagName line \<longrightarrow> check_line_from_parts line flagName val = line)"
  by (simp add: check_line_prefix check_line_no_prefix)

theorem check_line_from_parts_contract_witness:
  "check_line_from_parts ''BUILD_ARCHS_DEVICE=old_value'' ''BUILD_ARCHS_DEVICE'' ''arm64e arm64''
     = ''BUILD_ARCHS_DEVICE='' @ [CHR 0x22] @ ''arm64e arm64'' @ [CHR 0x22, CHR 0x0A]
   \<and> check_line_from_parts ''export PATH'' ''BUILD_ARCHS_DEVICE'' ''arm64e arm64''
     = ''export PATH''"
  using check_line_from_parts_contract
      [of "''BUILD_ARCHS_DEVICE''" "''BUILD_ARCHS_DEVICE=old_value''" "''arm64e arm64''"]
    check_line_from_parts_contract
      [of "''BUILD_ARCHS_DEVICE''" "''export PATH''" "''arm64e arm64''"]
  by simp

text \<open>
  Claim C2, as stated, says that a patched script exiting with a non-zero status makes
  the run fail with \<open>SubprocessError\<close>. The module drops the value that \<^verbatim>\<open>call\<close>
  returns: with a child that exits with status 1 the run finishes.
\<close>

theorem nonzero_exit_counterexample:
  "fst (run (exit_with 1) example_world) = Finished
   \<and> fst (run (exit_with 1) example_world) \<noteq> Raised SubprocessError"
proof -
  have "exit_with 1 [''sh'', ''build_current.sh'']
          (os_chdir example_patched ''./assimpLib/port/iOS'')
        = Exited 1 (files example_patched)"
    by (simp add: exit_with_def os_chdir_def)
  moreover have "files example_patched (abspath example_patched build_temp_file) \<noteq> None"
    unfolding patch_abspath [OF example_patch] abspath_example_temp
    by (simp add: example_patched_def)
  ultimately have "fst (build (exit_with 1) example_patched) = Finished"
    by (rule build_after_exit(2)
        [of "exit_with 1" example_patched 1 "files example_patched"])
  then show ?thesis
    by (simp add: run_patched [OF example_patch])
qed

text \<open>
  Claim C2, amended. When the patched script exits with a non-zero status, the status
  is discarded: the run does not fail with \<open>SubprocessError\<close>, it goes on to
  \<^verbatim>\<open>os.remove\<close>, and the temporary file does not exist afterwards. The run
  finishes when the script left the file in place, and fails with \<open>FileAccessError\<close>
  at \<^verbatim>\<open>os.remove\<close> when the script removed the file itself.
\<close>

theorem nonzero_exit_discarded:
  assumes "patch w = Inr w1"
    and "sh [''sh'', ''build_current.sh''] (os_chdir w1 ''./assimpLib/port/iOS'') = Exited status fs"
    and "status \<noteq> 0"
  shows "fst (run sh w) \<noteq> Raised SubprocessError
    \<and> files (snd (run sh w)) (abspath w build_temp_file) = None
    \<and> (fs (abspath w build_temp_file) \<noteq> None \<longrightarrow> fst (run sh w) = Finished)
    \<and> (fs (abspath w build_temp_file) = None \<longrightarrow>
          fst (run sh w) = Raised (FileAccessError ''build_current.sh''))"
proof -
  have r: "run sh w = build sh w1"
    using assms(1) by (rule run_patched)
  have k: "abspath w1 build_temp_file = abspath w build_temp_file"
    using assms(1) by (rule patch_abspath)
  show ?thesis
    using build_after_exit [of sh w1 status fs, OF assms(2)] unfolding r k
    by (cases "fs (abspath w build_temp_file)") auto
qed

theorem nonzero_exit_discarded_witness:
  "patch example_world = Inr example_patched
   \<and> exit_with 1 [''sh'', ''build_current.sh'']
          (os_chdir example_patched ''./assimpLib/port/iOS'') = Exited 1 (files example_patched)
   \<and> (1::int) \<noteq> 0
   \<and> files example_patched (abspath example_world build_temp_file) \<noteq> None
   \<and> fst (run (exit_with 1) example_world) = Finished
   \<and> files (snd (run (exit_with 1) example_world))
        (abspath example_world build_temp_file) = None
   \<and> remove_script_and_exit 1 [''sh'', ''build_current.sh'']
          (os_chdir example_patched ''./assimpLib/port/iOS'')
        = Exited 1 ((files example_patched)(abspath example_world build_temp_file := None))
   \<and> fst (run (remove_script_and_exit 1) example_world)
        = Raised (FileAccessError ''build_current.sh'')
   \<and> files (snd (run (remove_script_and_exit 1) example_world))
        (abspath example_world build_temp_file) = None"
proof -
  have sh: "exit_with 1 [''sh'', ''build_current.sh'']
          (os_chdir example_patched ''./assimpLib/port/iOS'') = Exited 1 (files example_patched)"
    by (simp add: exit_with_def os_chdir_def)
  have st: "(1::int) \<noteq> 0"
    by simp
  have kept: "files example_patched (abspath example_world build_temp_file) \<noteq> None"
    by (simp add: abspath_example_temp example_patched_def)
  have sh': "remove_script_and_exit 1 [''sh'', ''build_current.sh'']
          (os_chdir example_patched ''./assimpLib/port/iOS'')
        = Exited 1 ((files example_patched)(abspath example_world build_temp_file := None))"
    by (simp add: remove_script_and_exit_def example_chdir_temp files_chdir)
  have removed: "((files example_patched)(abspath example_world build_temp_file := None))
        (abspath example_world build_temp_file) = None"
    by simp
  show ?thesis
    using example_patch sh st kept sh' removed
      nonzero_exit_discarded
        [of example_world example_patched "exit_with 1" 1 "files example_patched",
          OF example_patch sh st]
      nonzero_exit_discarded
        [of example_world example_patched "remove_script_and_exit 1" 1
          "(files example_patched)(abspath example_world build_temp_file := None)",
          OF example_patch sh' st]
    by blast
qed

text \<open>
  Claim C3. The rewritten lines are as many as the lines read, for every sequence of
  lines; and when the patch phase succeeds, the text written to the temporary file has
  as many lines as the text of the source file.
\<close>

theorem line_count_invariant:
  "length (new_lines_of lines) = length lines
   \<and> (patch w = Inr w' \<longrightarrow>
        (\<exists>src out. files w (abspath w build_file) = Some src
           \<and> files w' (abspath w build_temp_file) = Some out
           \<and> length (file_lines out) = length (file_lines src)))"
proof
  show "length (new_lines_of lines) = length lines"
    by (simp add: new_lines_of_map)
next
  show "patch w = Inr w' \<longrightarrow>
        (\<exists>src out. files w (abspath w build_file) = Some src
           \<and> files w' (abspath w build_temp_file) = Some out
           \<and> length (file_lines out) = length (file_lines src))"
  proof
    assume "patch w = Inr w'"
    then obtain src where src: "files w (abspath w build_file) = Some src"
      and w': "w' = w\<lparr>files := (files w)(abspath w build_temp_file \<mapsto>
                  concat (new_lines_of (file_lines src)))\<rparr>"
      using patch_InrD by blast
    have "files w' (abspath w build_temp_file) = Some (concat (new_lines_of (file_lines src)))"
      by (simp add: w')
    moreover have "length (file_lines (concat (new_lines_of (file_lines src))))
        = length (file_lines src)"
      unfolding file_lines_rewritten by (simp add: new_lines_of_map)
    ultimately show "\<exists>src out. files w (abspath w build_file) = Some src
           \<and> files w' (abspath w build_temp_file) = Some out
           \<and> length (file_lines out) = length (file_lines src)"
      using src by blast
  qed
qed

theorem line_count_invariant_witness:
  "length (new_lines_of [''BUILD_ARCHS_DEVICE=arm64'', ''make'']) = 2
   \<and> length (new_lines_of []) = 0
   \<and> patch example_world = Inr example_patched
   \<and> (\<exists>src out. files example_world (abspath example_world build_file) = Some src
           \<and> files example_patched (abspath example_world build_temp_file) = Some out
           \<and> length (file_lines out) = length (file_lines src))"
  using line_count_invariant [of "[''BUILD_ARCHS_DEVICE=arm64'', ''make'']" example_world example_patched]
    line_count_invariant [of "[]" example_world example_patched] example_patch
  by simp

text \<open>
  Claim C4. At every position, the rewritten line differs from the source line only if
  the source line starts with \<^verbatim>\<open>BUILD_ARCHS_DEVICE\<close> or with
  \<^verbatim>\<open>BUILD_ARCHS_SIMULATOR\<close>; every other line passes through unchanged.
\<close>

theorem rewrite_frame:
  "i < length lines \<Longrightarrow> new_lines_of lines ! i \<noteq> lines ! i \<Longrightarrow>
   prefix ''BUILD_ARCHS_DEVICE'' (lines ! i) \<or> prefix ''BUILD_ARCHS_SIMULATOR'' (lines ! i)"
  by (simp add: new_lines_of_map loop_body_cases split: if_splits)

theorem rewrite_frame_witness:
  "(1::nat) < length [''#!/bin/sh'', ''BUILD_ARCHS_DEVICE=arm64'', ''make all'']
   \<and> new_lines_of [''#!/bin/sh'', ''BUILD_ARCHS_DEVICE=arm64'', ''make all''] ! 1
       \<noteq> [''#!/bin/sh'', ''BUILD_ARCHS_DEVICE=arm64'', ''make all''] ! 1
   \<and> (prefix ''BUILD_ARCHS_DEVICE'' ([''#!/bin/sh'', ''BUILD_ARCHS_DEVICE=arm64'', ''make all''] ! 1)
      \<or> prefix ''BUILD_ARCHS_SIMULATOR'' ([''#!/bin/sh'', ''BUILD_ARCHS_DEVICE=arm64'', ''make all''] ! 1))"
proof -
  have len: "(1::nat) < length [''#!/bin/sh'', ''BUILD_ARCHS_DEVICE=arm64'', ''make all'']"
    by simp
  have changed: "new_lines_of [''#!/bin/sh'', ''BUILD_ARCHS_DEVICE=arm64'', ''make all''] ! 1
       \<noteq> [''#!/bin/sh'', ''BUILD_ARCHS_DEVICE=arm64'', ''make all''] ! 1"
    by (simp add: new_lines_of_map loop_body_cases)
  show ?thesis
    using len changed rewrite_frame [OF len changed] by blast
qed

text \<open>
  Claim C5. The rewrite of a line (device check, then simulator check, with the
  constants of the module) is idempotent, and so is the rewrite of a sequence of lines.
\<close>

theorem rewrite_idempotent:
  "loop_body (loop_body line) = loop_body line
   \<and> new_lines_of (new_lines_of lines) = new_lines_of lines"
  by (simp add: new_lines_of_map loop_body_idem)

theorem rewrite_idempotent_witness:
  "loop_body (loop_body ''BUILD_ARCHS_SIMULATOR=i386'') = loop_body ''BUILD_ARCHS_SIMULATOR=i386''
   \<and> loop_body ''BUILD_ARCHS_SIMULATOR=i386''
       = ''BUILD_ARCHS_SIMULATOR='' @ [CHR 0x22] @ ''x86_64'' @ [CHR 0x22, CHR 0x0A]"
  using rewrite_idempotent [of "''BUILD_ARCHS_SIMULATOR=i386''" "[]"]
  by (simp add: loop_body_cases)

text \<open>
  Claim C6. The device check followed by the simulator check on its result gives the
  same line as the two checks made on the original line, because no line starts with
  both flag names and a line rewritten by the device check does not start with the
  simulator flag name.
\<close>

theorem sequential_is_independent:
  "loop_body line = independent_checks line
   \<and> \<not> (prefix ''BUILD_ARCHS_DEVICE'' line \<and> prefix ''BUILD_ARCHS_SIMULATOR'' line)
   \<and> (prefix ''BUILD_ARCHS_DEVICE'' line \<longrightarrow>
        \<not> prefix ''BUILD_ARCHS_SIMULATOR''
            (check_line_from_parts line ''BUILD_ARCHS_DEVICE'' ''arm64e arm64''))"
proof (intro conjI)
  show "loop_body line = independent_checks line"
    by (simp only: loop_body_cases independent_checks_cases)
  show "\<not> (prefix ''BUILD_ARCHS_DEVICE'' line \<and> prefix ''BUILD_ARCHS_SIMULATOR'' line)"
    by (rule flags_exclusive)
  show "prefix ''BUILD_ARCHS_DEVICE'' line \<longrightarrow>
        \<not> prefix ''BUILD_ARCHS_SIMULATOR''
            (check_line_from_parts line ''BUILD_ARCHS_DEVICE'' ''arm64e arm64'')"
    by (simp add: check_line_prefix)
qed

theorem sequential_is_independent_witness:
  "prefix ''BUILD_ARCHS_DEVICE'' ''BUILD_ARCHS_DEVICE=arm64''
   \<and> loop_body ''BUILD_ARCHS_DEVICE=arm64'' = independent_checks ''BUILD_ARCHS_DEVICE=arm64''
   \<and> \<not> prefix ''BUILD_ARCHS_SIMULATOR''
        (check_line_from_parts ''BUILD_ARCHS_DEVICE=arm64'' ''BUILD_ARCHS_DEVICE'' ''arm64e arm64'')"
  using sequential_is_independent [of "''BUILD_ARCHS_DEVICE=arm64''"]
  by simp

text \<open>
  Claim C7. Matching is a prefix test: whatever follows the flag name on the line, also
  the rest of a longer identifier, the line is replaced by the flag name, an equals sign,
  the value between double quotes and a newline.
\<close>

theorem prefix_match_replaces:
  "check_line_from_parts (flagName @ rest) flagName val
     = flagName @ ''='' @ [CHR 0x22] @ val @ [CHR 0x22, CHR 0x0A]"
  by (simp add: check_line_prefix)

theorem prefix_match_replaces_witness:
  "check_line_from_parts ''BUILD_ARCHS_DEVICE_EXTRA=1'' ''BUILD_ARCHS_DEVICE'' ''arm64e arm64''
     = ''BUILD_ARCHS_DEVICE='' @ [CHR 0x22] @ ''arm64e arm64'' @ [CHR 0x22, CHR 0x0A]"
  using prefix_match_replaces [of "''BUILD_ARCHS_DEVICE''" "''_EXTRA=1''" "''arm64e arm64''"]
  by simp

text \<open>
  Claim C8. When there is no file at the source path, the run fails with
  \<open>FileAccessError\<close> for that path and leaves the world as it was: the temporary
  file is opened only after the source file has been opened, so none is created.
\<close>

theorem missing_source_fails:
  "files w (abspath w build_file) = None \<Longrightarrow>
   run sh w = (Raised (FileAccessError ''./assimpLib/port/iOS/build.sh''), w)"
  by (simp add: run_not_patched patch_no_source build_file_eval)

theorem missing_source_fails_witness:
  "files (example_world\<lparr>files := Map.empty\<rparr>)
      (abspath (example_world\<lparr>files := Map.empty\<rparr>) build_file) = None
   \<and> run (exit_with 0) (example_world\<lparr>files := Map.empty\<rparr>)
       = (Raised (FileAccessError ''./assimpLib/port/iOS/build.sh''),
          example_world\<lparr>files := Map.empty\<rparr>)
   \<and> files (snd (run (exit_with 0) (example_world\<lparr>files := Map.empty\<rparr>)))
        ''/proj/./assimpLib/port/iOS/build_current.sh'' = None"
proof -
  have h: "files (example_world\<lparr>files := Map.empty\<rparr>)
      (abspath (example_world\<lparr>files := Map.empty\<rparr>) build_file) = None"
    by simp
  show ?thesis
    using h missing_source_fails [OF h, of "exit_with 0"] by simp
qed

text \<open>
  Claim C9. For a source script whose lines include \<^verbatim>\<open>BUILD_ARCHS_DEVICE=arm64\<close>
  and \<^verbatim>\<open>BUILD_ARCHS_SIMULATOR=i386\<close>, each with its newline, the patch phase
  writes a temporary file that has, at the same positions, the lines
  \<^verbatim>\<open>BUILD_ARCHS_DEVICE="arm64e arm64"\<close> and \<^verbatim>\<open>BUILD_ARCHS_SIMULATOR="x86_64"\<close>,
  each with its newline; whenever the run finishes the temporary file is gone, and the
  run does finish when the child process exits and leaves the file in place.
\<close>

theorem end_to_end:
  assumes src: "files w (abspath w build_file) = Some src"
    and wr: "abspath w build_temp_file \<notin> unwritable w"
    and i: "i < length (file_lines src)"
    and dev: "file_lines src ! i = ''BUILD_ARCHS_DEVICE=arm64'' @ [CHR 0x0A]"
    and j: "j < length (file_lines src)"
    and sim: "file_lines src ! j = ''BUILD_ARCHS_SIMULATOR=i386'' @ [CHR 0x0A]"
  shows "\<exists>w1 out. patch w = Inr w1
    \<and> files w1 (abspath w build_temp_file) = Some out
    \<and> length (file_lines out) = length (file_lines src)
    \<and> file_lines out ! i
        = ''BUILD_ARCHS_DEVICE='' @ [CHR 0x22] @ ''arm64e arm64'' @ [CHR 0x22, CHR 0x0A]
    \<and> file_lines out ! j
        = ''BUILD_ARCHS_SIMULATOR='' @ [CHR 0x22] @ ''x86_64'' @ [CHR 0x22, CHR 0x0A]
    \<and> (\<forall>sh w'. run sh w = (Finished, w') \<longrightarrow> files w' (abspath w build_temp_file) = None)
    \<and> (\<forall>sh st fs.
          sh [''sh'', ''build_current.sh''] (os_chdir w1 ''./assimpLib/port/iOS'') = Exited st fs
          \<and> fs (abspath w build_temp_file) \<noteq> None
          \<longrightarrow> fst (run sh w) = Finished)"
proof -
  define out where "out = concat (new_lines_of (file_lines src))"
  define w1 where "w1 = w\<lparr>files := (files w)(abspath w build_temp_file \<mapsto> out)\<rparr>"
  have p: "patch w = Inr w1"
    unfolding w1_def out_def using src wr by (rule patch_success)
  have k: "abspath w1 build_temp_file = abspath w build_temp_file"
    using p by (rule patch_abspath)
  have r: "run sh w = build sh w1" for sh
    using p by (rule run_patched)
  have f: "files w1 (abspath w build_temp_file) = Some out"
    by (simp add: w1_def)
  have ls: "file_lines out = map loop_body (file_lines src)"
    unfolding out_def file_lines_rewritten by (simp add: new_lines_of_map)
  have len: "length (file_lines out) = length (file_lines src)"
    by (simp add: ls)
  have d: "file_lines out ! i
        = ''BUILD_ARCHS_DEVICE='' @ [CHR 0x22] @ ''arm64e arm64'' @ [CHR 0x22, CHR 0x0A]"
    using i dev by (simp add: ls loop_body_cases)
  have s: "file_lines out ! j
        = ''BUILD_ARCHS_SIMULATOR='' @ [CHR 0x22] @ ''x86_64'' @ [CHR 0x22, CHR 0x0A]"
    using j sim by (simp add: ls loop_body_cases)
  have gone: "\<forall>sh w'. run sh w = (Finished, w') \<longrightarrow> files w' (abspath w build_temp_file) = None"
    using build_finished [of _ w1] unfolding r k by blast
  have fin: "\<forall>sh st fs.
          sh [''sh'', ''build_current.sh''] (os_chdir w1 ''./assimpLib/port/iOS'') = Exited st fs
          \<and> fs (abspath w build_temp_file) \<noteq> None
          \<longrightarrow> fst (run sh w) = Finished"
    using build_after_exit(2) [of _ w1] unfolding r k by blast
  show ?thesis
    using p f len d s gone fin by blast
qed

theorem end_to_end_witness:
  "files example_world (abspath example_world build_file) = Some example_script
   \<and> abspath example_world build_temp_file \<notin> unwritable example_world
   \<and> file_lines example_script ! 1 = ''BUILD_ARCHS_DEVICE=arm64'' @ [CHR 0x0A]
   \<and> file_lines example_script ! 2 = ''BUILD_ARCHS_SIMULATOR=i386'' @ [CHR 0x0A]
   \<and> (\<exists>w1 out. patch example_world = Inr w1
        \<and> files w1 (abspath example_world build_temp_file) = Some out
        \<and> length (file_lines out) = 4
        \<and> file_lines out ! 1
            = ''BUILD_ARCHS_DEVICE='' @ [CHR 0x22] @ ''arm64e arm64'' @ [CHR 0x22, CHR 0x0A]
        \<and> file_lines out ! 2
            = ''BUILD_ARCHS_SIMULATOR='' @ [CHR 0x22] @ ''x86_64'' @ [CHR 0x22, CHR 0x0A])
   \<and> fst (run (exit_with 0) example_world) = Finished
   \<and> files (snd (run (exit_with 0) example_world)) (abspath example_world build_temp_file) = None"
proof -
  have i: "1 < length (file_lines example_script)"
    and j: "2 < length (file_lines example_script)"
    and n: "length (file_lines example_script) = 4"
    and dev: "file_lines example_script ! 1 = ''BUILD_ARCHS_DEVICE=arm64'' @ [CHR 0x0A]"
    and sim: "file_lines example_script ! 2 = ''BUILD_ARCHS_SIMULATOR=i386'' @ [CHR 0x0A]"
    by (simp_all add: example_lines)
  obtain w1 out where p: "patch example_world = Inr w1"
    and f: "files w1 (abspath example_world build_temp_file) = Some out"
    and len: "length (file_lines out) = length (file_lines example_script)"
    and d: "file_lines out ! 1
        = ''BUILD_ARCHS_DEVICE='' @ [CHR 0x22] @ ''arm64e arm64'' @ [CHR 0x22, CHR 0x0A]"
    and s: "file_lines out ! 2
        = ''BUILD_ARCHS_SIMULATOR='' @ [CHR 0x22] @ ''x86_64'' @ [CHR 0x22, CHR 0x0A]"
    and gone: "\<forall>sh w'. run sh example_world = (Finished, w')
        \<longrightarrow> files w' (abspath example_world build_temp_file) = None"
    and fin: "\<forall>sh st fs.
        sh [''sh'', ''build_current.sh''] (os_chdir w1 ''./assimpLib/port/iOS'') = Exited st fs
        \<and> fs (abspath example_world build_temp_file) \<noteq> None
        \<longrightarrow> fst (run sh example_world) = Finished"
    using end_to_end [OF example_source example_writable i dev j sim] by blast
  have "exit_with 0 [''sh'', ''build_current.sh''] (os_chdir w1 ''./assimpLib/port/iOS'')
      = Exited 0 (files w1)"
    by (simp add: exit_with_def os_chdir_def)
  then have finished: "fst (run (exit_with 0) example_world) = Finished"
    using fin f by (metis option.distinct(1))
  then have "run (exit_with 0) example_world = (Finished, snd (run (exit_with 0) example_world))"
    by (metis prod.collapse)
  then have removed: "files (snd (run (exit_with 0) example_world))
      (abspath example_world build_temp_file) = None"
    using gone by blast
  show ?thesis
    using example_source example_writable dev sim p f len n d s finished removed by auto
qed

text \<open>
  Claim C10. Two lines that start with the same flag name are rewritten to the same
  line: the result is made of the flag name and the value only, nothing of the line
  after the prefix remains, and the result ends with a newline.
\<close>

theorem matched_output_ignores_rest:
  "prefix flagName line1 \<Longrightarrow> prefix flagName line2 \<Longrightarrow>
   check_line_from_parts line1 flagName val = check_line_from_parts line2 flagName val
   \<and> check_line_from_parts line1 flagName val
       = flagName @ ''='' @ [CHR 0x22] @ val @ [CHR 0x22, CHR 0x0A]
   \<and> last (check_line_from_parts line1 flagName val) = CHR 0x0A"
  by (simp add: check_line_prefix)

theorem matched_output_ignores_rest_witness:
  "prefix ''BUILD_ARCHS_DEVICE'' ''BUILD_ARCHS_DEVICE=arm64''
   \<and> prefix ''BUILD_ARCHS_DEVICE'' ''BUILD_ARCHS_DEVICE=armv7 armv7s # legacy''
   \<and> check_line_from_parts ''BUILD_ARCHS_DEVICE=arm64'' ''BUILD_ARCHS_DEVICE'' ''arm64e arm64''
       = check_line_from_parts ''BUILD_ARCHS_DEVICE=armv7 armv7s # legacy'' ''BUILD_ARCHS_DEVICE''
           ''arm64e arm64''
   \<and> last (check_line_from_parts ''BUILD_ARCHS_DEVICE=arm64'' ''BUILD_ARCHS_DEVICE'' ''arm64e arm64'')
       = CHR 0x0A"
proof -
  have p1: "prefix ''BUILD_ARCHS_DEVICE'' ''BUILD_ARCHS_DEVICE=arm64''"
    by simp
  have p2: "prefix ''BUILD_ARCHS_DEVICE'' ''BUILD_ARCHS_DEVICE=armv7 armv7s # legacy''"
    by simp
  show ?thesis
    using p1 p2 matched_output_ignores_rest [OF p1 p2, of "''arm64e arm64''"] by blast
qed

end
